theory Spec2Isabelle
  imports Complex_Main
begin

section \<open>Data model\<close>

text \<open>
  A scraped product is the JSON object the crawler writes and the uploader reads. Every
  field is read with \<^verbatim>\<open>dict.get\<close>, which answers \<^verbatim>\<open>None\<close> for a missing key
  and for a JSON null alike, so each field is a \<open>string option\<close>.
\<close>

record product =
  p_id :: "string option"
  p_category :: "string option"
  p_product_name :: "string option"
  p_product_address :: "string option"
  p_original_price :: "string option"
  p_selling_price :: "string option"
  p_image_url :: "string option"
  p_quantity :: "string option"
  p_out_of_stock :: "string option"
  p_last_updated :: "string option"

text \<open>The \<^verbatim>\<open>price_info\<close> dictionary: one entry of \<^verbatim>\<open>price_history\<close>.\<close>

record price_info =
  original_price :: "string option"
  selling_price :: "string option"
  pi_last_updated :: "string option"

text \<open>A document of the collection \<^verbatim>\<open>emart_price\<close>.\<close>

record price_doc =
  pd_id :: string
  pd_out_of_stock :: "string option"
  pd_quantity :: "string option"
  pd_last_updated :: "string option"
  pd_price_history :: "price_info list"

text \<open>A document of the collection \<^verbatim>\<open>emart_product\<close>.\<close>

record product_doc =
  prd_id :: "string option"
  prd_category :: "string option"
  prd_image_url :: "string option"
  prd_last_updated :: "string option"
  prd_product_address :: "string option"
  prd_product_name :: "string option"
  prd_is_emb :: "string option"

section \<open>Effects\<close>

text \<open>
  Everything the program does to its surroundings is appended to one log of events, and
  the length of the log is the current time. What the surroundings answer (whether the
  cancellation flag is set, whether a store call raises) is a function of that time, so
  a flag set or cleared by another thread at any moment, and any pattern of failures,
  is one such function.
\<close>

datatype store_op = DocGet | DocSet | DocUpdate

datatype event =
    Polled bool
  | Slept rat
  | Requested string int
  | Saved string "product list"
  | StoreCall store_op string string
  | Removed string
  | Notified "(string \<times> nat) list"

record timeline =
  events :: "event list"

text \<open>\<^verbatim>\<open>Optional[Event]\<close>: no event at all, or a flag whose value depends on the time.\<close>

type_synonym stop_event = "(nat \<Rightarrow> bool) option"

definition should_stop :: "stop_event \<Rightarrow> nat \<Rightarrow> bool" where
  "should_stop ev t = (case ev of None \<Rightarrow> False | Some is_set \<Rightarrow> is_set t)"

text \<open>One call of \<^verbatim>\<open>_should_stop\<close>: the answer, and the log with the query recorded.\<close>

definition poll :: "stop_event \<Rightarrow> 'a timeline_scheme \<Rightarrow> bool \<times> 'a timeline_scheme" where
  "poll ev w =
     (should_stop ev (length (events w)),
      w\<lparr>events := events w @ [Polled (should_stop ev (length (events w)))]\<rparr>)"

section \<open>The uploader (firebase\_uploader.py)\<close>

text \<open>
  The snapshot directories hold JSON files. A file's content is either a list of products
  or, when it cannot be opened or parsed into one, the text of the exception.
\<close>

type_synonym content = "string + product list"

record world = timeline +
  price_coll :: "string \<rightharpoonup> price_doc"
  product_coll :: "string \<rightharpoonup> product_doc"
  files :: "string \<Rightarrow> (string \<times> content) list"

record uploader_env =
  init_error :: "string option"
  store_raises :: "nat \<Rightarrow> bool"
  remove_raises :: "nat \<Rightarrow> bool"

text \<open>A call of the store client: whether it raises, and the log with the call recorded.\<close>

definition store_call ::
  "uploader_env \<Rightarrow> store_op \<Rightarrow> string \<Rightarrow> string \<Rightarrow> world \<Rightarrow> bool \<times> world" where
  "store_call e op coll doc_id w =
     (store_raises e (length (events w)),
      w\<lparr>events := events w @ [StoreCall op coll doc_id]\<rparr>)"

text \<open>
  \<^verbatim>\<open>price_ref.set(top_level_update_data, merge=True)\<close> without the key
  \<^verbatim>\<open>price_history\<close>: the four top-level fields are written, the rest of the document
  stays.
\<close>

definition merge_top_level ::
  "price_doc option \<Rightarrow> string \<Rightarrow> string option \<Rightarrow> string option \<Rightarrow> string option \<Rightarrow> price_doc" where
  "merge_top_level old product_id out_of_stock quantity last_updated =
     (case old of
        None \<Rightarrow> \<lparr>pd_id = product_id, pd_out_of_stock = out_of_stock, pd_quantity = quantity,
                 pd_last_updated = last_updated, pd_price_history = []\<rparr>
      | Some doc \<Rightarrow> doc\<lparr>pd_id := product_id, pd_out_of_stock := out_of_stock,
                       pd_quantity := quantity, pd_last_updated := last_updated\<rparr>)"

definition update_price_history ::
  "uploader_env \<Rightarrow> world \<Rightarrow> string \<Rightarrow> string option \<Rightarrow> string option \<Rightarrow> string option \<Rightarrow>
     price_info \<Rightarrow> string \<times> world" where
  "update_price_history e w product_id out_of_stock quantity last_updated price_info =
     (let (get_raised, w1) = store_call e DocGet ''emart_price'' product_id w in
      if get_raised then (''error'', w1)
      else
        let price_history =
              (case price_coll w1 product_id of None \<Rightarrow> [] | Some doc \<Rightarrow> pd_price_history doc);
            price_has_changed =
              (if price_history \<noteq> [] then
                 \<not> (original_price (last price_history) = original_price price_info \<and>
                    selling_price (last price_history) = selling_price price_info)
               else True)
        in if price_has_changed then
             (let (set_raised, w2) = store_call e DocSet ''emart_price'' product_id w1 in
              if set_raised then (''error'', w2)
              else (''updated'',
                    w2\<lparr>price_coll := (price_coll w2)(product_id \<mapsto>
                          (merge_top_level (price_coll w2 product_id) product_id out_of_stock
                             quantity last_updated)
                            \<lparr>pd_price_history := price_history @ [price_info]\<rparr>)\<rparr>))
           else
             (let (set_raised, w2) = store_call e DocSet ''emart_price'' product_id w1 in
              if set_raised then (''error'', w2)
              else (''skipped'',
                    w2\<lparr>price_coll := (price_coll w2)(product_id \<mapsto>
                          merge_top_level (price_coll w2 product_id) product_id out_of_stock
                            quantity last_updated)\<rparr>)))"

text \<open>The five local counters of \<^verbatim>\<open>upload_json_to_firestore\<close>.\<close>

record tallies =
  price_updated_count :: nat
  price_skipped_count :: nat
  product_new_count :: nat
  product_updated_count :: nat
  product_skipped_count :: nat

definition no_tallies :: tallies where
  "no_tallies = \<lparr>price_updated_count = 0, price_skipped_count = 0, product_new_count = 0,
                  product_updated_count = 0, product_skipped_count = 0\<rparr>"

text \<open>The dictionary returned under the key \<^verbatim>\<open>counters\<close>.\<close>

definition counters_dict :: "tallies \<Rightarrow> (string \<times> nat) list" where
  "counters_dict c =
     [(''price_updated'', price_updated_count c),
      (''price_skipped'', price_skipped_count c),
      (''product_new'', product_new_count c),
      (''product_updated'', product_updated_count c),
      (''product_skipped'', product_skipped_count c)]"

text \<open>
  The returned dictionary. The message texts of the source are Korean sentences; each is
  named here by a constructor, with the directory or file name it is formatted with.
\<close>

datatype message =
    StoppedBeforeStart
  | NoJsonFiles string
  | StoppedFileLoop
  | StoppedInFile string
  | NotificationSkipped
  | AllFilesUploaded

record upload_result =
  status :: string
  message :: "message option"
  counters :: "(string \<times> nat) list option"
  error :: "string option"

definition stopped_result :: "message \<Rightarrow> tallies \<Rightarrow> upload_result" where
  "stopped_result m c =
     \<lparr>status = ''stopped'', message = Some m, counters = Some (counters_dict c), error = None\<rparr>"

definition error_result :: "string \<Rightarrow> upload_result" where
  "error_result txt = \<lparr>status = ''error'', message = None, counters = None, error = Some txt\<rparr>"

text \<open>Lines 219-242: the price path of one record.\<close>

definition price_path :: "uploader_env \<Rightarrow> string \<Rightarrow> product \<Rightarrow> tallies \<Rightarrow> world \<Rightarrow> tallies \<times> world" where
  "price_path e product_id product c w =
     (let price_info = \<lparr>original_price = p_original_price product,
                        selling_price = p_selling_price product,
                        pi_last_updated = p_last_updated product\<rparr>;
          (result, w1) = update_price_history e w product_id (p_out_of_stock product)
                           (p_quantity product) (p_last_updated product) price_info
      in if result = ''updated'' then (c\<lparr>price_updated_count := price_updated_count c + 1\<rparr>, w1)
         else if result = ''skipped'' then (c\<lparr>price_skipped_count := price_skipped_count c + 1\<rparr>, w1)
         else (c, w1))"

text \<open>
  Lines 244-292: the product path of one record. An exception of a store call is caught
  and printed; the counter of the branch is incremented only after its write returned.
\<close>

definition product_path :: "uploader_env \<Rightarrow> string \<Rightarrow> product \<Rightarrow> tallies \<Rightarrow> world \<Rightarrow> tallies \<times> world" where
  "product_path e product_id product c w =
     (let (get_raised, w1) = store_call e DocGet ''emart_product'' product_id w in
      if get_raised then (c, w1)
      else
        case product_coll w1 product_id of
          Some existing_data \<Rightarrow>
            if prd_product_name existing_data \<noteq> p_product_name product \<or>
               prd_image_url existing_data \<noteq> p_image_url product
            then
              (let (raised, w2) = store_call e DocUpdate ''emart_product'' product_id w1 in
               if raised then (c, w2)
               else (c\<lparr>product_updated_count := product_updated_count c + 1\<rparr>,
                     w2\<lparr>product_coll := (product_coll w2)(product_id \<mapsto>
                           existing_data\<lparr>prd_product_name := p_product_name product,
                                          prd_image_url := p_image_url product,
                                          prd_last_updated := p_last_updated product,
                                          prd_is_emb := Some ''R''\<rparr>)\<rparr>))
            else
              (let (raised, w2) = store_call e DocUpdate ''emart_product'' product_id w1 in
               if raised then (c, w2)
               else (c\<lparr>product_skipped_count := product_skipped_count c + 1\<rparr>,
                     w2\<lparr>product_coll := (product_coll w2)(product_id \<mapsto>
                           existing_data\<lparr>prd_last_updated := p_last_updated product\<rparr>)\<rparr>))
        | None \<Rightarrow>
            (let (raised, w2) = store_call e DocSet ''emart_product'' product_id w1 in
             if raised then (c, w2)
             else (c\<lparr>product_new_count := product_new_count c + 1\<rparr>,
                   w2\<lparr>product_coll := (product_coll w2)(product_id \<mapsto>
                         \<lparr>prd_id = p_id product, prd_category = p_category product,
                          prd_image_url = p_image_url product,
                          prd_last_updated = p_last_updated product,
                          prd_product_address = p_product_address product,
                          prd_product_name = p_product_name product,
                          prd_is_emb = Some ''R''\<rparr>)\<rparr>)))"

text \<open>
  Lines 208-292: the loop over the products of one file. The result says whether the loop
  was left by the \<^verbatim>\<open>break\<close> of the cancellation check (\<^verbatim>\<open>stopped_in_file\<close>).
\<close>

fun record_loop ::
  "uploader_env \<Rightarrow> stop_event \<Rightarrow> int \<Rightarrow> product list \<Rightarrow> tallies \<Rightarrow> world \<Rightarrow> bool \<times> tallies \<times> world" where
  "record_loop e ev beacon [] c w = (False, c, w)"
| "record_loop e ev beacon (product # products) c w =
     (if fst (poll ev w) then (True, c, snd (poll ev w))
      else
        case p_id product of
          None \<Rightarrow> record_loop e ev beacon products c (snd (poll ev w))
        | Some product_id \<Rightarrow>
            if product_id = [] then record_loop e ev beacon products c (snd (poll ev w))
            else
              let (c2, w2) = (if beacon = 1 \<or> beacon = 2
                              then price_path e product_id product c (snd (poll ev w))
                              else (c, snd (poll ev w)));
                  (c3, w3) = (if beacon = 1 \<or> beacon = 3
                              then product_path e product_id product c2 w2
                              else (c2, w2))
              in record_loop e ev beacon products c3 w3)"

text \<open>\<^verbatim>\<open>os.remove(json_file)\<close>, with its \<^verbatim>\<open>except OSError\<close> that only prints.\<close>

definition remove_file :: "uploader_env \<Rightarrow> string \<Rightarrow> string \<Rightarrow> world \<Rightarrow> world" where
  "remove_file e dir json_file w =
     (if remove_raises e (length (events w))
      then w\<lparr>events := events w @ [Removed json_file]\<rparr>
      else w\<lparr>events := events w @ [Removed json_file],
             files := (files w)(dir := filter (\<lambda>f. fst f \<noteq> json_file) (files w dir))\<rparr>)"

text \<open>
  Lines 188-310: the loop over the file names that \<^verbatim>\<open>glob\<close> returned. It ends with
  \<open>Inl\<close> of the dictionary of an early \<^verbatim>\<open>return\<close> (or of the outer
  \<^verbatim>\<open>except\<close>), or with \<open>Inr\<close> of the counters when every file was visited.
\<close>

fun file_loop ::
  "uploader_env \<Rightarrow> stop_event \<Rightarrow> string \<Rightarrow> int \<Rightarrow> string list \<Rightarrow> tallies \<Rightarrow> world \<Rightarrow>
     (upload_result + tallies) \<times> world" where
  "file_loop e ev dir beacon [] c w = (Inr c, w)"
| "file_loop e ev dir beacon (json_file # rest) c w =
     (if fst (poll ev w) then (Inl (stopped_result StoppedFileLoop c), snd (poll ev w))
      else
        case map_of (files (snd (poll ev w)) dir) json_file of
          None \<Rightarrow> (Inl (error_result ''FileNotFoundError''), snd (poll ev w))
        | Some (Inl txt) \<Rightarrow> (Inl (error_result txt), snd (poll ev w))
        | Some (Inr products) \<Rightarrow>
            (case record_loop e ev beacon products c (snd (poll ev w)) of
               (stopped_in_file, c', w') \<Rightarrow>
                 if stopped_in_file then (Inl (stopped_result (StoppedInFile json_file) c'), w')
                 else file_loop e ev dir beacon rest c' (remove_file e dir json_file w')))"

text \<open>Lines 168-172: which collections a directory is synced into.\<close>

definition beacon_of :: "string \<Rightarrow> int" where
  "beacon_of directory_path =
     (if directory_path = ''result_json'' then 1
      else if directory_path = ''result_price_json'' then 2 else 3)"

definition upload_json_to_firestore ::
  "uploader_env \<Rightarrow> string \<Rightarrow> stop_event \<Rightarrow> world \<Rightarrow> upload_result \<times> world" where
  "upload_json_to_firestore e directory_path ev w =
     (let (stop0, w0) = poll ev w in
      if stop0 then
        (\<lparr>status = ''stopped'', message = Some StoppedBeforeStart, counters = None,
          error = None\<rparr>, w0)
      else
        case init_error e of
          Some txt \<Rightarrow> (error_result txt, w0)
        | None \<Rightarrow>
            let beacon = beacon_of directory_path;
                json_files = map fst (files w0 directory_path)
            in if json_files = [] then
                 (\<lparr>status = ''warning'', message = Some (NoJsonFiles directory_path),
                   counters = None, error = None\<rparr>, w0)
               else
                 case file_loop e ev directory_path beacon json_files no_tallies w0 of
                   (Inl r, w1) \<Rightarrow> (r, w1)
                 | (Inr c, w1) \<Rightarrow>
                     let (stop1, w2) = poll ev w1 in
                     if stop1 then (stopped_result NotificationSkipped c, w2)
                     else (\<lparr>status = ''success'', message = Some AllFilesUploaded,
                            counters = Some (counters_dict c), error = None\<rparr>,
                           w2\<lparr>events := events w2 @ [Notified (counters_dict c)]\<rparr>))"

text \<open>The history stored for a product id; a product without a document has none.\<close>

definition stored_history :: "world \<Rightarrow> string \<Rightarrow> price_info list" where
  "stored_history w product_id =
     (case price_coll w product_id of None \<Rightarrow> [] | Some doc \<Rightarrow> pd_price_history doc)"

text \<open>Two observations carry the same price pair; their timestamps are not compared.\<close>

definition same_prices :: "price_info \<Rightarrow> price_info \<Rightarrow> bool" where
  "same_prices a b = (original_price a = original_price b \<and> selling_price a = selling_price b)"

subsection \<open>A concrete store\<close>

definition ex_env :: uploader_env where
  "ex_env = \<lparr>init_error = None, store_raises = (\<lambda>_. False), remove_raises = (\<lambda>_. False)\<rparr>"

definition ex_snapshot :: "string \<Rightarrow> string \<Rightarrow> string \<Rightarrow> price_info" where
  "ex_snapshot orig sell t =
     \<lparr>original_price = Some orig, selling_price = Some sell, pi_last_updated = Some t\<rparr>"

definition ex_world :: world where
  "ex_world =
     \<lparr>events = [],
      price_coll = [''1'' \<mapsto> \<lparr>pd_id = ''1'', pd_out_of_stock = Some [], pd_quantity = Some [],
                      pd_last_updated = Some ''t0'',
                      pd_price_history = [ex_snapshot ''100'' ''90'' ''t0'']\<rparr>],
      product_coll = Map.empty, files = (\<lambda>_. [])\<rparr>"

definition ex_product :: "string \<Rightarrow> product" where
  "ex_product i =
     \<lparr>p_id = Some i, p_category = Some ''Fruits'', p_product_name = Some ''apple'',
      p_product_address = Some ''https://emart.ssg.com/item'', p_original_price = Some ''100'',
      p_selling_price = Some ''90'', p_image_url = Some ''https://emart.ssg.com/img'',
      p_quantity = Some [], p_out_of_stock = Some [], p_last_updated = Some ''t1''\<rparr>"




section \<open>The crawler (emart\_json.py)\<close>

text \<open>
  The settings \<^verbatim>\<open>run_scraper\<close> reads from the environment, after its own
  normalisation: the start page is at least 1, an end page that is empty, zero or
  negative is absent, and the page cap is at least 1.
\<close>

record config =
  start_page :: int
  end_page :: "int option"
  page_cap :: int
  page_delay :: rat
  empty_page_stop :: int
  partial_save_every :: int

text \<open>
  What \<^verbatim>\<open>session.get\<close> with \<^verbatim>\<open>raise_for_status\<close> gives for a category id and a
  page number: an exception, or a page. Of a page only the results of the two extractors
  matter: the items of \<^verbatim>\<open>scrape_emart_category_page\<close> (or that it raises) and the
  answer of \<^verbatim>\<open>_has_next_page_by_dom\<close>.
\<close>

datatype crawl_error = RequestException | OtherException

record html =
  scraped :: "product list option"
  next_by_dom :: "bool option"

record crawl_env =
  http_get :: "string \<Rightarrow> int \<Rightarrow> crawl_error + html"

record crawl_world = timeline +
  result_json :: "string \<rightharpoonup> product list"

text \<open>
  Lines 76-87, \<^verbatim>\<open>_sleep_with_cancel\<close>. Durations are exact rationals. The source
  computes \<^verbatim>\<open>step\<close> once before the loop; it is the same value in every round.
\<close>

function sleep_loop :: "stop_event \<Rightarrow> rat \<Rightarrow> rat \<Rightarrow> rat \<Rightarrow> crawl_world \<Rightarrow> crawl_world" where
  "sleep_loop ev total_sec tick remain w =
     (if 0 < remain then
        (if fst (poll ev w) then snd (poll ev w)
         else
           let step = max (1 / 100) (min tick total_sec);
               t = min step remain
           in sleep_loop ev total_sec tick (remain - t)
                ((snd (poll ev w))\<lparr>events := events (snd (poll ev w)) @ [Slept t]\<rparr>))
      else w)"
  by pat_completeness auto
termination
proof (relation "measure (\<lambda>(ev, total_sec, tick, remain, w). nat \<lceil>remain * 100\<rceil>)", goal_cases)
  case 1
  show ?case by simp
next
  case (2 ev total_sec tick remain w step t)
  have step: "1 / 100 \<le> step" using 2 by simp
  have teq: "t = min step remain" using 2 by simp
  have pos: "0 < \<lceil>remain * 100\<rceil>" using 2 by simp
  have "\<lceil>(remain - t) * 100\<rceil> < \<lceil>remain * 100\<rceil>"
  proof (cases "step \<le> remain")
    case True
    then have "t = step" using teq by (simp add: min_def)
    then have "(remain - t) * 100 \<le> remain * 100 - 1" using step by (simp add: algebra_simps)
    then have "\<lceil>(remain - t) * 100\<rceil> \<le> \<lceil>remain * 100 - 1\<rceil>" by (rule ceiling_mono)
    then show ?thesis by simp
  next
    case False
    then have "t = remain" using teq by (simp add: min_def)
    then show ?thesis using pos by simp
  qed
  then show ?case using pos by simp
qed


declare sleep_loop.simps [simp del]

definition sleep_with_cancel :: "rat \<Rightarrow> stop_event \<Rightarrow> rat \<Rightarrow> crawl_world \<Rightarrow> crawl_world" where
  "sleep_with_cancel total_sec ev tick w =
     (if total_sec \<le> 0 then w else sleep_loop ev total_sec tick total_sec w)"

text \<open>\<^verbatim>\<open>it.get("id", "")\<close>; a missing id and a null one are both falsy.\<close>

definition pid_of :: "product \<Rightarrow> string" where
  "pid_of it = (case p_id it of None \<Rightarrow> [] | Some s \<Rightarrow> s)"

text \<open>Lines 362-371: the loop over the items of one page.\<close>

fun dedupe :: "product list \<Rightarrow> string set \<Rightarrow> product list \<Rightarrow> product list \<times> string set" where
  "dedupe [] seen_ids new_items = (new_items, seen_ids)"
| "dedupe (it # items) seen_ids new_items =
     (if pid_of it \<noteq> [] \<and> pid_of it \<in> seen_ids then dedupe items seen_ids new_items
      else dedupe items (if pid_of it \<noteq> [] then insert (pid_of it) seen_ids else seen_ids)
             (new_items @ [it]))"

text \<open>\<^verbatim>\<open>json.dump(collected, f)\<close> into \<^verbatim>\<open>result_json/<category_name>.json\<close>.\<close>

definition save :: "string \<Rightarrow> product list \<Rightarrow> crawl_world \<Rightarrow> crawl_world" where
  "save category_name items w =
     w\<lparr>events := events w @ [Saved category_name items],
       result_json := (result_json w)(category_name \<mapsto> items)\<rparr>"

record loop_vars =
  page_num :: int
  visited_pages :: int
  collected :: "product list"
  seen_ids :: "string set"
  consecutive_empty :: int

datatype exit = Cancelled | EndPage | PageCap | EmptyPages | NoNextPage | Raised crawl_error

text \<open>
  Lines 329-405: one round of the \<^verbatim>\<open>while True\<close> loop. The first component is the
  reason of the \<^verbatim>\<open>break\<close> (or the exception that left the loop), or \<open>None\<close> when
  the round ran to its end.
\<close>

definition page_iteration ::
  "crawl_env \<Rightarrow> stop_event \<Rightarrow> config \<Rightarrow> string \<Rightarrow> string \<Rightarrow> loop_vars \<Rightarrow> crawl_world \<Rightarrow>
     exit option \<times> loop_vars \<times> crawl_world" where
  "page_iteration e ev cfg category_name disp_ctg_id v w =
     (let (stop1, w1) = poll ev w in
      if stop1 then (Some Cancelled, v, w1)
      else if (case end_page cfg of None \<Rightarrow> False | Some ep \<Rightarrow> ep < page_num v)
      then (Some EndPage, v, w1)
      else if page_cap cfg \<le> visited_pages v then (Some PageCap, v, w1)
      else
        let (stop2, w2) = poll ev w1 in
        if stop2 then (Some Cancelled, v, w2)
        else
          let w3 = w2\<lparr>events := events w2 @ [Requested disp_ctg_id (page_num v)]\<rparr> in
          case http_get e disp_ctg_id (page_num v) of
            Inl err \<Rightarrow> (Some (Raised err), v, w3)
          | Inr page \<Rightarrow>
              let (stop3, w4) = poll ev w3 in
              if stop3 then (Some Cancelled, v, w4)
              else
                case scraped page of
                  None \<Rightarrow> (Some (Raised OtherException), v, w4)
                | Some items \<Rightarrow>
                    let (new_items, seen') = dedupe items (seen_ids v) [];
                        v1 = v\<lparr>seen_ids := seen', collected := collected v @ new_items\<rparr>;
                        v2 = (if new_items = []
                              then v1\<lparr>consecutive_empty := consecutive_empty v1 + 1\<rparr>
                              else v1\<lparr>consecutive_empty := 0\<rparr>)
                    in if new_items = [] \<and> 0 < empty_page_stop cfg \<and>
                          empty_page_stop cfg \<le> consecutive_empty v2
                       then (Some EmptyPages, v2, w4)
                       else if next_by_dom page = Some False then (Some NoNextPage, v2, w4)
                       else
                         let v3 = v2\<lparr>visited_pages := visited_pages v2 + 1\<rparr>;
                             w5 = (if 0 < partial_save_every cfg \<and>
                                      visited_pages v3 mod partial_save_every cfg = 0
                                   then save category_name (collected v3) w4 else w4);
                             v4 = v3\<lparr>page_num := page_num v3 + 1\<rparr>;
                             w6 = sleep_with_cancel (page_delay cfg) ev (1 / 10) w5
                         in (None, v4, w6))"

function page_loop ::
  "crawl_env \<Rightarrow> stop_event \<Rightarrow> config \<Rightarrow> string \<Rightarrow> string \<Rightarrow> loop_vars \<Rightarrow> crawl_world \<Rightarrow>
     exit \<times> loop_vars \<times> crawl_world" where
  "page_loop e ev cfg category_name disp_ctg_id v w =
     (case fst (page_iteration e ev cfg category_name disp_ctg_id v w) of
        Some x \<Rightarrow> (x, snd (page_iteration e ev cfg category_name disp_ctg_id v w))
      | None \<Rightarrow>
          page_loop e ev cfg category_name disp_ctg_id
            (fst (snd (page_iteration e ev cfg category_name disp_ctg_id v w)))
            (snd (snd (page_iteration e ev cfg category_name disp_ctg_id v w))))"
  by pat_completeness auto
termination
proof (relation "measure (\<lambda>(e, ev, cfg, category_name, disp_ctg_id, v, w).
                    nat (page_cap cfg - visited_pages v))", goal_cases)
  case 1
  show ?case by simp
next
  case (2 e ev cfg category_name disp_ctg_id v w)
  then have "visited_pages (fst (snd (page_iteration e ev cfg category_name disp_ctg_id v w))) =
               visited_pages v + 1 \<and> visited_pages v < page_cap cfg"
    by (auto simp: page_iteration_def Let_def case_prod_beta
          split: if_splits sum.splits option.splits)
  then show ?case by (simp add: case_prod_beta)
qed

declare page_loop.simps [simp del]

text \<open>Lines 320-326: the state a category starts with.\<close>

definition initial_vars :: "config \<Rightarrow> loop_vars" where
  "initial_vars cfg =
     \<lparr>page_num = start_page cfg, visited_pages = 0, collected = [], seen_ids = {},
      consecutive_empty = 0\<rparr>"

definition is_raised :: "exit \<Rightarrow> bool" where
  "is_raised x = (case x of Raised err \<Rightarrow> True | _ \<Rightarrow> False)"

text \<open>
  Lines 315-423: the body of the loop over the categories. The final save stands after
  the page loop inside the \<^verbatim>\<open>try\<close>, so an exception of the page loop skips it. The
  first component says whether \<^verbatim>\<open>run_scraper\<close> returns.
\<close>

definition crawl_category ::
  "crawl_env \<Rightarrow> stop_event \<Rightarrow> config \<Rightarrow> string \<times> string \<Rightarrow> crawl_world \<Rightarrow> bool \<times> crawl_world" where
  "crawl_category e ev cfg cat w =
     (let (stop0, w0) = poll ev w in
      if stop0 then (True, w0)
      else
        case page_loop e ev cfg (fst cat) (snd cat) (initial_vars cfg) w0 of
          (x, v, w1) \<Rightarrow>
            if is_raised x then (False, w1)
            else poll ev (save (fst cat) (collected v) w1))"


text \<open>
  What a cancellable sleep may add to the log from time \<open>t\<close> on: rounds of one query
  answered "not set" followed by one sleep of a positive duration of at most \<open>bound\<close>,
  ended either by nothing or by one query answered "set" with nothing after it.
\<close>

fun chunked :: "stop_event \<Rightarrow> rat \<Rightarrow> nat \<Rightarrow> event list \<Rightarrow> bool" where
  "chunked ev bound t [] = True"
| "chunked ev bound t [x] = (x = Polled True \<and> should_stop ev t)"
| "chunked ev bound t (x # y # rest) =
     (x = Polled False \<and> \<not> should_stop ev t \<and>
      (case y of Slept d \<Rightarrow> 0 < d \<and> d \<le> bound | _ \<Rightarrow> False) \<and>
      chunked ev bound (t + 2) rest)"

text \<open>The page fetches among the events.\<close>

fun is_request :: "event \<Rightarrow> bool" where
  "is_request (Requested c n) = True"
| "is_request _ = False"

definition ex_crawl_world :: crawl_world where
  "ex_crawl_world = \<lparr>events = [], result_json = Map.empty\<rparr>"

text \<open>A site whose first two pages hold five products each and whose later pages hold none.\<close>

definition ex_page :: "string list \<Rightarrow> html" where
  "ex_page ids = \<lparr>scraped = Some (map ex_product ids), next_by_dom = None\<rparr>"

definition ex_site :: crawl_env where
  "ex_site =
     \<lparr>http_get = (\<lambda>c n. if n = 1 then Inr (ex_page [''p1'', ''p2'', ''p3'', ''p4'', ''p5''])
                        else if n = 2 then Inr (ex_page [''p6'', ''p7'', ''p8'', ''p9'', ''p10''])
                        else Inr (ex_page []))\<rparr>"

definition ex_config :: config where
  "ex_config =
     \<lparr>start_page = 1, end_page = None, page_cap = 500, page_delay = 1 / 10,
      empty_page_stop = 2, partial_save_every = 0\<rparr>"


text \<open>
  First-seen order, in the spec's words: of a sequence of records, the record at a
  position is kept exactly when its id is empty or no record before it has the same id.
\<close>

definition first_seen :: "product list \<Rightarrow> product list" where
  "first_seen xs =
     map (\<lambda>i. xs ! i)
       (filter (\<lambda>i. pid_of (xs ! i) = [] \<or> pid_of (xs ! i) \<notin> pid_of ` set (take i xs))
          [0..<length xs])"

text \<open>
  The records the extractor yields for a page of a category (none when the page cannot
  be fetched or extracted), and those of \<open>k\<close> consecutive pages from page \<open>p\<close> on.
\<close>

definition page_items :: "crawl_env \<Rightarrow> string \<Rightarrow> int \<Rightarrow> product list" where
  "page_items e cid n =
     (case http_get e cid n of
        Inl err \<Rightarrow> []
      | Inr page \<Rightarrow> (case scraped page of None \<Rightarrow> [] | Some items \<Rightarrow> items))"

definition pages_items :: "crawl_env \<Rightarrow> string \<Rightarrow> int \<Rightarrow> nat \<Rightarrow> product list" where
  "pages_items e cid p k = concat (map (\<lambda>i. page_items e cid (p + int i)) [0..<k])"

text \<open>The non-empty ids of a sequence of records.\<close>

definition ids :: "product list \<Rightarrow> string set" where
  "ids xs = pid_of ` set xs - {[]}"

text \<open>A site whose first two pages share an id and hold records without id.\<close>

definition ex_dup_site :: crawl_env where
  "ex_dup_site =
     \<lparr>http_get = (\<lambda>c n. if n = 1 then Inr (ex_page [''a'', ''b'', []])
                        else if n = 2 then Inr (ex_page [''b'', ''c'', []])
                        else Inr (ex_page []))\<rparr>"



section \<open>Price history: append on change\<close>

lemma uph_updated:
  assumes "\<not> store_raises e (length (events w))" "\<not> store_raises e (Suc (length (events w)))"
    and "stored_history w k = [] \<or> \<not> same_prices (last (stored_history w k)) pinfo"
  shows "update_price_history e w k oos q lu pinfo =
     (''updated'',
      w\<lparr>events := events w @ [StoreCall DocGet ''emart_price'' k, StoreCall DocSet ''emart_price'' k],
        price_coll := (price_coll w)(k \<mapsto> (merge_top_level (price_coll w k) k oos q lu)
             \<lparr>pd_price_history := stored_history w k @ [pinfo]\<rparr>)\<rparr>)"
  using assms
  by (auto simp: update_price_history_def store_call_def stored_history_def same_prices_def
        Let_def split: option.splits)

lemma uph_skipped:
  assumes "\<not> store_raises e (length (events w))" "\<not> store_raises e (Suc (length (events w)))"
    and "stored_history w k \<noteq> []" "same_prices (last (stored_history w k)) pinfo"
  shows "update_price_history e w k oos q lu pinfo =
     (''skipped'',
      w\<lparr>events := events w @ [StoreCall DocGet ''emart_price'' k, StoreCall DocSet ''emart_price'' k],
        price_coll := (price_coll w)(k \<mapsto> merge_top_level (price_coll w k) k oos q lu)\<rparr>)"
  using assms
  by (auto simp: update_price_history_def store_call_def stored_history_def same_prices_def
        Let_def split: option.splits)


text \<open>
  Claim C1. When the two store calls of \<^verbatim>\<open>update_price_history\<close> do not raise: if the
  stored history is empty or its last entry differs from the incoming record in the
  original or the selling price, the incoming snapshot is appended at the end of the
  history and the call returns "updated"; otherwise the history stays as it is and the
  call returns "skipped". In both cases the document afterwards carries the four
  top-level fields of the call (id, out\_of\_stock, quantity, last\_updated), no other
  document of either collection and no file changes, and the classification is the same
  whatever timestamp the incoming snapshot carries.
\<close>

theorem update_price_history_decision:
  assumes "\<not> store_raises e (length (events w))" and "\<not> store_raises e (Suc (length (events w)))"
  shows "(if stored_history w k = [] \<or> \<not> same_prices (last (stored_history w k)) pinfo
          then fst (update_price_history e w k oos q lu pinfo) = ''updated'' \<and>
               stored_history (snd (update_price_history e w k oos q lu pinfo)) k =
                 stored_history w k @ [pinfo]
          else fst (update_price_history e w k oos q lu pinfo) = ''skipped'' \<and>
               stored_history (snd (update_price_history e w k oos q lu pinfo)) k =
                 stored_history w k) \<and>
         price_coll (snd (update_price_history e w k oos q lu pinfo)) k =
           Some \<lparr>pd_id = k, pd_out_of_stock = oos, pd_quantity = q, pd_last_updated = lu,
                 pd_price_history =
                   stored_history (snd (update_price_history e w k oos q lu pinfo)) k\<rparr> \<and>
         (\<forall>k'. k' \<noteq> k \<longrightarrow>
            price_coll (snd (update_price_history e w k oos q lu pinfo)) k' = price_coll w k') \<and>
         product_coll (snd (update_price_history e w k oos q lu pinfo)) = product_coll w \<and>
         files (snd (update_price_history e w k oos q lu pinfo)) = files w \<and>
         fst (update_price_history e w k oos q lu (pinfo\<lparr>pi_last_updated := t\<rparr>)) =
           fst (update_price_history e w k oos q lu pinfo)"
proof (cases "stored_history w k = [] \<or> \<not> same_prices (last (stored_history w k)) pinfo")
  case True
  then have "stored_history w k = [] \<or>
             \<not> same_prices (last (stored_history w k)) (pinfo\<lparr>pi_last_updated := t\<rparr>)"
    by (simp add: same_prices_def)
  from uph_updated [OF assms True] uph_updated [OF assms this] True
  show ?thesis
    by (simp add: stored_history_def merge_top_level_def split: option.splits)
next
  case False
  then have ne: "stored_history w k \<noteq> []" and sp: "same_prices (last (stored_history w k)) pinfo"
    by simp_all
  from sp have sp': "same_prices (last (stored_history w k)) (pinfo\<lparr>pi_last_updated := t\<rparr>)"
    by (simp add: same_prices_def)
  from ne obtain doc where doc: "price_coll w k = Some doc"
    by (auto simp: stored_history_def split: option.splits)
  from uph_skipped [OF assms ne sp] uph_skipped [OF assms ne sp'] False doc
  show ?thesis
    by (simp add: stored_history_def merge_top_level_def)
qed

theorem update_price_history_decision_witness:
  "\<not> store_raises ex_env (length (events ex_world)) \<and>
   \<not> store_raises ex_env (Suc (length (events ex_world))) \<and>
   fst (update_price_history ex_env ex_world ''1'' None None (Some ''t1'')
          (ex_snapshot ''100'' ''90'' ''t1'')) = ''skipped'' \<and>
   fst (update_price_history ex_env ex_world ''1'' None None (Some ''t1'')
          (ex_snapshot ''100'' ''80'' ''t1'')) = ''updated'' \<and>
   stored_history (snd (update_price_history ex_env ex_world ''1'' None None (Some ''t1'')
       (ex_snapshot ''100'' ''80'' ''t1''))) ''1''
     = [ex_snapshot ''100'' ''90'' ''t0'', ex_snapshot ''100'' ''80'' ''t1'']"
  using
    update_price_history_decision [where e = ex_env and w = ex_world and k = "''1''" and
      pinfo = "ex_snapshot ''100'' ''90'' ''t1''" and oos = None and q = None and lu = "Some ''t1''"]
    update_price_history_decision [where e = ex_env and w = ex_world and k = "''1''" and
      pinfo = "ex_snapshot ''100'' ''80'' ''t1''" and oos = None and q = None and lu = "Some ''t1''"]
  by (simp add: ex_env_def ex_world_def ex_snapshot_def stored_history_def same_prices_def)

section \<open>Price history: two syncs of one price pair\<close>




section \<open>Frame and evaluation lemmas of the uploader\<close>












section \<open>Cancellation in the middle of a file\<close>





section \<open>An empty snapshot directory\<close>

text \<open>
  Claim C10. When the directory has no JSON file, the run does nothing but ask the
  cancellation flag once: no store call, no removal and no notification is recorded, both
  collections and all files stay as they are, and the returned dictionary has no
  counters. When the flag is not set at that moment and the store client initialises, the
  dictionary is the "warning" one, whose message names the directory.
\<close>

theorem no_json_files_warning:
  assumes "files w dir = []"
  shows "snd (upload_json_to_firestore e dir ev w) =
           w\<lparr>events := events w @ [Polled (should_stop ev (length (events w)))]\<rparr> \<and>
         counters (fst (upload_json_to_firestore e dir ev w)) = None \<and>
         (\<not> should_stop ev (length (events w)) \<and> init_error e = None \<longrightarrow>
            fst (upload_json_to_firestore e dir ev w) =
              \<lparr>status = ''warning'', message = Some (NoJsonFiles dir), counters = None,
               error = None\<rparr>)"
  using assms
  by (simp add: upload_json_to_firestore_def poll_def error_result_def Let_def
        split: option.splits)

theorem no_json_files_warning_witness:
  "files ex_world ''result_json'' = [] \<and>
   \<not> should_stop None (length (events ex_world)) \<and> init_error ex_env = None \<and>
   upload_json_to_firestore ex_env ''result_json'' None ex_world =
     (\<lparr>status = ''warning'', message = Some (NoJsonFiles ''result_json''), counters = None,
       error = None\<rparr>,
      ex_world\<lparr>events := [Polled False]\<rparr>)"
  using no_json_files_warning [where w = ex_world and dir = "''result_json''" and e = ex_env
      and ev = None]
  by (simp add: ex_world_def ex_env_def should_stop_def prod_eq_iff)


section \<open>Counters and failing writes\<close>















section \<open>The chunked sleep\<close>

lemma sleep_loop_chunked:
  "\<exists>new. events (sleep_loop ev total_sec tick remain w) = events w @ new \<and>
         chunked ev (max (1 / 100) (min tick total_sec)) (length (events w)) new \<and>
         result_json (sleep_loop ev total_sec tick remain w) = result_json w"
proof (induction ev total_sec tick remain w rule: sleep_loop.induct)
  case (1 ev total_sec tick remain w)
  let ?step = "max (1 / 100) (min tick total_sec)"
  let ?t = "min ?step remain"
  let ?w' = "(snd (poll ev w))\<lparr>events := events (snd (poll ev w)) @ [Slept ?t]\<rparr>"
  show ?case
  proof (cases "0 < remain")
    case False
    then show ?thesis by (simp add: sleep_loop.simps [of ev total_sec tick remain w])
  next
    case pos: True
    show ?thesis
    proof (cases "fst (poll ev w)")
      case True
      then show ?thesis using pos
        by (simp add: sleep_loop.simps [of ev total_sec tick remain w] poll_def)
    next
      case False
      from "1.IH" [OF pos False refl refl]
      obtain new where n: "events (sleep_loop ev total_sec tick (remain - ?t) ?w') = events ?w' @ new"
        "chunked ev ?step (length (events ?w')) new"
        "result_json (sleep_loop ev total_sec tick (remain - ?t) ?w') = result_json ?w'"
        by blast
      have eq: "sleep_loop ev total_sec tick remain w = sleep_loop ev total_sec tick (remain - ?t) ?w'"
        using pos False by (simp add: sleep_loop.simps [of ev total_sec tick remain w] Let_def)
      have ev': "events ?w' = events w @ [Polled False, Slept ?t]"
        using False by (simp add: poll_def)
      have t: "0 < ?t" "?t \<le> ?step" using pos by simp_all
      have ns: "\<not> should_stop ev (length (events w))" using False by (simp add: poll_def)
      show ?thesis
      proof (intro exI conjI)
        show "events (sleep_loop ev total_sec tick remain w) =
                events w @ (Polled False # Slept ?t # new)"
          using eq n(1) ev' by simp
        show "chunked ev ?step (length (events w)) (Polled False # Slept ?t # new)"
          using n(2) ev' t ns by simp
        show "result_json (sleep_loop ev total_sec tick remain w) = result_json w"
          using eq n(3) by (simp add: poll_def)
      qed
    qed
  qed
qed

text \<open>
  Claim C9. A call of the cancellable sleep with a positive total duration adds to the
  log only rounds of one query of the cancellation flag answered "not set" followed by
  one sleep step, each step positive and at most \<open>max 0.01 (min tick total)\<close>, and it
  ends at the first query answered "set", after which nothing is slept. So every sleep
  step is preceded by a fresh query of the flag, and a flag set during a step is seen
  before the next one. A call with a total duration of zero or less does nothing at all.
  The snapshot files are not touched. The tick is a parameter; the crawler passes none,
  so it is the default 0.1.
\<close>

theorem sleep_is_chunked:
  "(0 < total_sec \<longrightarrow>
      (\<exists>new. events (sleep_with_cancel total_sec ev tick w) = events w @ new \<and>
             chunked ev (max (1 / 100) (min tick total_sec)) (length (events w)) new)) \<and>
   (total_sec \<le> 0 \<longrightarrow> sleep_with_cancel total_sec ev tick w = w) \<and>
   result_json (sleep_with_cancel total_sec ev tick w) = result_json w"
  using sleep_loop_chunked [of ev total_sec tick total_sec w]
  by (auto simp: sleep_with_cancel_def)

theorem sleep_is_chunked_witness:
  "(0::rat) < 1 / 4 \<and>
   events (sleep_with_cancel (1 / 4) (Some (\<lambda>t. 4 \<le> t)) (1 / 10) ex_crawl_world) =
     [Polled False, Slept (1 / 10), Polled False, Slept (1 / 10), Polled True] \<and>
   chunked (Some (\<lambda>t. 4 \<le> t)) (1 / 10) 0
     [Polled False, Slept (1 / 10), Polled False, Slept (1 / 10), Polled True] \<and>
   events (sleep_with_cancel (1 / 4) None (1 / 10) ex_crawl_world) =
     [Polled False, Slept (1 / 10), Polled False, Slept (1 / 10), Polled False, Slept (1 / 20)] \<and>
   (0::rat) \<le> 0 \<and> sleep_with_cancel 0 None (1 / 10) ex_crawl_world = ex_crawl_world"
  using sleep_is_chunked [of "1 / 4" "Some (\<lambda>t. 4 \<le> t)" "1 / 10" ex_crawl_world]
    sleep_is_chunked [of "1 / 4" None "1 / 10" ex_crawl_world]
    sleep_is_chunked [of 0 None "1 / 10" ex_crawl_world]
  by (simp add: sleep_with_cancel_def sleep_loop.simps poll_def should_stop_def ex_crawl_world_def Let_def)


section \<open>The page cap\<close>


lemma chunked_no_request: "chunked ev b t new \<Longrightarrow> filter is_request new = []"
proof (induction ev b t new rule: chunked.induct)
  case (3 ev bound t x y rest)
  then show ?case by (auto split: event.splits)
qed auto

lemma sleep_requests:
  "filter is_request (events (sleep_with_cancel d ev tick w)) = filter is_request (events w)"
proof (cases "d \<le> 0")
  case True
  then show ?thesis by (simp add: sleep_with_cancel_def)
next
  case False
  from sleep_loop_chunked [of ev d tick d w] obtain new where
    "events (sleep_loop ev d tick d w) = events w @ new"
    "chunked ev (max (1 / 100) (min tick d)) (length (events w)) new" by blast
  with False chunked_no_request [of ev _ _ new] show ?thesis
    by (simp add: sleep_with_cancel_def)
qed

lemma sleep_result_json:
  "result_json (sleep_with_cancel d ev tick w) = result_json w"
  using sleep_loop_chunked [of ev d tick d w] by (auto simp: sleep_with_cancel_def)

lemma page_iteration_requests:
  "length (filter is_request (events (snd (snd (page_iteration e ev cfg cn cid v w))))) \<le>
     length (filter is_request (events w)) + (if visited_pages v < page_cap cfg then 1 else 0)"
  by (simp add: page_iteration_def poll_def save_def sleep_requests Let_def case_prod_beta
        split: sum.splits option.splits)

lemma page_iteration_continues:
  "fst (page_iteration e ev cfg cn cid v w) = None \<Longrightarrow>
     visited_pages (fst (snd (page_iteration e ev cfg cn cid v w))) = visited_pages v + 1 \<and>
     page_num (fst (snd (page_iteration e ev cfg cn cid v w))) = page_num v + 1 \<and>
     visited_pages v < page_cap cfg"
  by (auto simp: page_iteration_def Let_def case_prod_beta
        split: if_splits sum.splits option.splits)

lemma page_loop_requests:
  "int (length (filter is_request (events (snd (snd (page_loop e ev cfg cn cid v w)))))) \<le>
     int (length (filter is_request (events w))) + max 0 (page_cap cfg - visited_pages v)"
proof (induction e ev cfg cn cid v w rule: page_loop.induct)
  case (1 e ev cfg cn cid v w)
  let ?it = "page_iteration e ev cfg cn cid v w"
  show ?case
  proof (cases "fst ?it")
    case None
    from page_iteration_continues [OF None] have
      vp: "visited_pages (fst (snd ?it)) = visited_pages v + 1" "visited_pages v < page_cap cfg"
      by simp_all
    have eq: "page_loop e ev cfg cn cid v w = page_loop e ev cfg cn cid (fst (snd ?it)) (snd (snd ?it))"
      using None by (simp add: page_loop.simps [of e ev cfg cn cid v w])
    from "1.IH" [OF None] page_iteration_requests [of e ev cfg cn cid v w] vp eq
    show ?thesis by simp
  next
    case (Some x)
    then have eq: "page_loop e ev cfg cn cid v w = (x, snd ?it)"
      by (simp add: page_loop.simps [of e ev cfg cn cid v w])
    from page_iteration_requests [of e ev cfg cn cid v w] eq
    show ?thesis by (simp split: if_splits)
  qed
qed


lemma crawl_category_requests:
  "int (length (filter is_request (events (snd (crawl_category e ev cfg cat w))))) \<le>
     int (length (filter is_request (events w))) + max 0 (page_cap cfg)"
proof -
  let ?w0 = "snd (poll ev w)"
  let ?pl = "page_loop e ev cfg (fst cat) (snd cat) (initial_vars cfg) ?w0"
  have w0: "filter is_request (events ?w0) = filter is_request (events w)"
    by (simp add: poll_def)
  have "int (length (filter is_request (events (snd (snd ?pl))))) \<le>
          int (length (filter is_request (events w))) + max 0 (page_cap cfg)"
    using page_loop_requests [of e ev cfg "fst cat" "snd cat" "initial_vars cfg" ?w0] w0
    by (simp add: initial_vars_def)
  moreover have "filter is_request (events (snd (crawl_category e ev cfg cat w))) =
                   filter is_request (events w) \<or>
                 filter is_request (events (snd (crawl_category e ev cfg cat w))) =
                   filter is_request (events (snd (snd ?pl)))"
    by (simp add: crawl_category_def Let_def case_prod_beta poll_def save_def)
  ultimately show ?thesis by auto
qed

text \<open>
  Claim C5. The crawl of one category with a page cap of at least 1 issues at most that
  many page requests, whatever the pages hold, whatever the next-page signal says and
  whether or not an end page is set. The page loop is a total function (its termination is
  proved with the measure \<open>page_cap - visited_pages\<close>), so the loop ends in every case.
\<close>

theorem page_cap_bounds_fetches:
  assumes "1 \<le> page_cap cfg"
  shows "int (length (filter is_request (events (snd (crawl_category e ev cfg cat w))))) \<le>
           int (length (filter is_request (events w))) + page_cap cfg"
  using crawl_category_requests [of e ev cfg cat w] assms by simp

lemmas crawl_defs = crawl_category_def initial_vars_def page_iteration_def poll_def should_stop_def
  save_def sleep_with_cancel_def is_raised_def pid_of_def
lemmas crawl_ex_defs = ex_site_def ex_page_def ex_config_def ex_crawl_world_def ex_product_def

theorem page_cap_bounds_fetches_witness:
  "1 \<le> page_cap (ex_config\<lparr>page_cap := 1\<rparr>) \<and>
   filter is_request
     (events (snd (crawl_category ex_site None (ex_config\<lparr>page_cap := 1\<rparr>) (''Fruits'', ''X'')
                     ex_crawl_world))) = [Requested ''X'' 1]"
  using page_cap_bounds_fetches [of "ex_config\<lparr>page_cap := 1\<rparr>" ex_site None "(''Fruits'', ''X'')"
      ex_crawl_world]
  by (simp add: crawl_defs crawl_ex_defs page_loop.simps sleep_loop.simps Let_def)


section \<open>The final save\<close>






section \<open>Consecutive empty pages\<close>


lemma page_iteration_empty_count:
  assumes "0 < empty_page_stop cfg" and "consecutive_empty v < empty_page_stop cfg"
  shows "(fst (page_iteration e ev cfg cn cid v w) = Some EmptyPages \<longrightarrow>
            consecutive_empty (fst (snd (page_iteration e ev cfg cn cid v w))) = empty_page_stop cfg) \<and>
         (fst (page_iteration e ev cfg cn cid v w) \<noteq> Some EmptyPages \<longrightarrow>
            consecutive_empty (fst (snd (page_iteration e ev cfg cn cid v w))) < empty_page_stop cfg)"
  using assms
  by (auto simp: page_iteration_def Let_def case_prod_beta split: sum.splits option.splits)

lemma page_loop_empty_count:
  assumes "0 < empty_page_stop cfg" and "consecutive_empty v < empty_page_stop cfg"
  shows "(fst (page_loop e ev cfg cn cid v w) = EmptyPages \<longrightarrow>
            consecutive_empty (fst (snd (page_loop e ev cfg cn cid v w))) = empty_page_stop cfg) \<and>
         (fst (page_loop e ev cfg cn cid v w) \<noteq> EmptyPages \<longrightarrow>
            consecutive_empty (fst (snd (page_loop e ev cfg cn cid v w))) < empty_page_stop cfg)"
  using assms
proof (induction e ev cfg cn cid v w rule: page_loop.induct)
  case (1 e ev cfg cn cid v w)
  let ?it = "page_iteration e ev cfg cn cid v w"
  note step = page_iteration_empty_count [OF "1.prems", of e ev cn cid w]
  show ?case
  proof (cases "fst ?it")
    case None
    have eq: "page_loop e ev cfg cn cid v w = page_loop e ev cfg cn cid (fst (snd ?it)) (snd (snd ?it))"
      using None by (simp add: page_loop.simps [of e ev cfg cn cid v w])
    from step None have "consecutive_empty (fst (snd ?it)) < empty_page_stop cfg" by simp
    from "1.IH" [OF None "1.prems"(1) this] eq show ?thesis by simp
  next
    case (Some x)
    then have eq: "page_loop e ev cfg cn cid v w = (x, snd ?it)"
      by (simp add: page_loop.simps [of e ev cfg cn cid v w])
    from step Some eq show ?thesis by simp
  qed
qed

lemma page_iteration_processed:
  assumes "\<not> should_stop ev (length (events w))"
    and "\<not> should_stop ev (length (events w) + 1)"
    and "\<not> should_stop ev (length (events w) + 3)"
    and "case end_page cfg of None \<Rightarrow> True | Some ep \<Rightarrow> page_num v \<le> ep"
    and "visited_pages v < page_cap cfg"
    and "http_get e cid (page_num v) = Inr page"
    and "scraped page = Some items"
  shows "consecutive_empty (fst (snd (page_iteration e ev cfg cn cid v w))) =
           (if fst (dedupe items (seen_ids v) []) = [] then consecutive_empty v + 1 else 0) \<and>
         (fst (page_iteration e ev cfg cn cid v w) = Some EmptyPages) =
           (fst (dedupe items (seen_ids v) []) = [] \<and> 0 < empty_page_stop cfg \<and>
            empty_page_stop cfg \<le> consecutive_empty v + 1) \<and>
         collected (fst (snd (page_iteration e ev cfg cn cid v w))) =
           collected v @ fst (dedupe items (seen_ids v) [])"
  using assms
  by (auto simp: page_iteration_def poll_def Let_def case_prod_beta numeral_eq_Suc
        split: option.splits)


lemma ex_site_run:
  "\<exists>v w. page_loop ex_site None ex_config ''Fruits'' ''X'' (initial_vars ex_config) ex_crawl_world =
           (EmptyPages, v, w) \<and>
         page_num v = 4 \<and> consecutive_empty v = 2 \<and>
         map pid_of (collected v) = [''p1'', ''p2'', ''p3'', ''p4'', ''p5'', ''p6'', ''p7'', ''p8'', ''p9'', ''p10''] \<and>
         filter is_request (events w) =
           [Requested ''X'' 1, Requested ''X'' 2, Requested ''X'' 3, Requested ''X'' 4]"
  by (simp add: crawl_defs crawl_ex_defs page_loop.simps sleep_loop.simps Let_def)

text \<open>
  Claim C6. A round of the page loop that fetches and extracts a page adds one to the
  counter of consecutive empty pages when the deduplicated yield of the page is empty and
  sets it to 0 otherwise, and it stops with the reason "empty pages" exactly when the
  yield is empty, the threshold is positive and the counter has reached it. For a positive
  threshold the counter never exceeds the threshold during the whole loop, and the loop
  ends with the reason "empty pages" exactly when the counter equals the threshold. On the
  site whose pages yield 5, 5, 0, 0 new records, with threshold 2, the loop stops at page 4
  after four requests with a buffer of 10 records.
\<close>

theorem empty_page_streak:
  "(\<not> should_stop ev (length (events w)) \<and> \<not> should_stop ev (length (events w) + 1) \<and>
    \<not> should_stop ev (length (events w) + 3) \<and>
    (case end_page cfg of None \<Rightarrow> True | Some ep \<Rightarrow> page_num v \<le> ep) \<and>
    visited_pages v < page_cap cfg \<and>
    http_get e cid (page_num v) = Inr page \<and> scraped page = Some items \<longrightarrow>
      consecutive_empty (fst (snd (page_iteration e ev cfg cn cid v w))) =
        (if fst (dedupe items (seen_ids v) []) = [] then consecutive_empty v + 1 else 0) \<and>
      (fst (page_iteration e ev cfg cn cid v w) = Some EmptyPages) =
        (fst (dedupe items (seen_ids v) []) = [] \<and> 0 < empty_page_stop cfg \<and>
         empty_page_stop cfg \<le> consecutive_empty v + 1)) \<and>
   (0 < empty_page_stop cfg \<and> consecutive_empty v < empty_page_stop cfg \<longrightarrow>
      (fst (page_loop e ev cfg cn cid v w) = EmptyPages) =
        (consecutive_empty (fst (snd (page_loop e ev cfg cn cid v w))) = empty_page_stop cfg) \<and>
      consecutive_empty (fst (snd (page_loop e ev cfg cn cid v w))) \<le> empty_page_stop cfg) \<and>
   fst (page_loop ex_site None ex_config ''Fruits'' ''X'' (initial_vars ex_config) ex_crawl_world) =
     EmptyPages \<and>
   length (collected (fst (snd (page_loop ex_site None ex_config ''Fruits'' ''X''
             (initial_vars ex_config) ex_crawl_world)))) = 10 \<and>
   page_num (fst (snd (page_loop ex_site None ex_config ''Fruits'' ''X''
             (initial_vars ex_config) ex_crawl_world))) = 4 \<and>
   filter is_request (events (snd (snd (page_loop ex_site None ex_config ''Fruits'' ''X''
             (initial_vars ex_config) ex_crawl_world)))) =
     [Requested ''X'' 1, Requested ''X'' 2, Requested ''X'' 3, Requested ''X'' 4]"
proof -
  have a: "\<not> should_stop ev (length (events w)) \<and> \<not> should_stop ev (length (events w) + 1) \<and>
    \<not> should_stop ev (length (events w) + 3) \<and>
    (case end_page cfg of None \<Rightarrow> True | Some ep \<Rightarrow> page_num v \<le> ep) \<and>
    visited_pages v < page_cap cfg \<and>
    http_get e cid (page_num v) = Inr page \<and> scraped page = Some items \<longrightarrow>
      consecutive_empty (fst (snd (page_iteration e ev cfg cn cid v w))) =
        (if fst (dedupe items (seen_ids v) []) = [] then consecutive_empty v + 1 else 0) \<and>
      (fst (page_iteration e ev cfg cn cid v w) = Some EmptyPages) =
        (fst (dedupe items (seen_ids v) []) = [] \<and> 0 < empty_page_stop cfg \<and>
         empty_page_stop cfg \<le> consecutive_empty v + 1)"
    using page_iteration_processed [where ev = ev and w = w and cfg = cfg and v = v and e = e and
        cid = cid and page = page and items = items and cn = cn] by blast
  have b: "0 < empty_page_stop cfg \<and> consecutive_empty v < empty_page_stop cfg \<longrightarrow>
      (fst (page_loop e ev cfg cn cid v w) = EmptyPages) =
        (consecutive_empty (fst (snd (page_loop e ev cfg cn cid v w))) = empty_page_stop cfg) \<and>
      consecutive_empty (fst (snd (page_loop e ev cfg cn cid v w))) \<le> empty_page_stop cfg"
    using page_loop_empty_count [where cfg = cfg and v = v and e = e and ev = ev and cn = cn and
        cid = cid and w = w] by force
  from ex_site_run obtain v' w' where r:
    "page_loop ex_site None ex_config ''Fruits'' ''X'' (initial_vars ex_config) ex_crawl_world =
       (EmptyPages, v', w')"
    "page_num v' = 4"
    "map pid_of (collected v') = [''p1'', ''p2'', ''p3'', ''p4'', ''p5'', ''p6'', ''p7'', ''p8'', ''p9'', ''p10'']"
    "filter is_request (events w') =
       [Requested ''X'' 1, Requested ''X'' 2, Requested ''X'' 3, Requested ''X'' 4]"
    by auto
  from r(3) have "length (map pid_of (collected v')) = 10" by simp
  then have len: "length (collected v') = 10" by simp
  from a b r(1,2,4) len show ?thesis by simp
qed

theorem empty_page_streak_witness:
  "0 < empty_page_stop ex_config \<and>
   consecutive_empty (initial_vars ex_config) < empty_page_stop ex_config \<and>
   fst (page_loop ex_site None ex_config ''Fruits'' ''X'' (initial_vars ex_config) ex_crawl_world) =
     EmptyPages \<and>
   consecutive_empty (fst (snd (page_loop ex_site None ex_config ''Fruits'' ''X''
     (initial_vars ex_config) ex_crawl_world))) = 2 \<and>
   \<not> should_stop None (length (events ex_crawl_world)) \<and>
   visited_pages (initial_vars ex_config) < page_cap ex_config \<and>
   http_get ex_site ''X'' (page_num (initial_vars ex_config)) =
     Inr (ex_page [''p1'', ''p2'', ''p3'', ''p4'', ''p5'']) \<and>
   scraped (ex_page [''p1'', ''p2'', ''p3'', ''p4'', ''p5'']) =
     Some (map ex_product [''p1'', ''p2'', ''p3'', ''p4'', ''p5'']) \<and>
   consecutive_empty (fst (snd (page_iteration ex_site None ex_config ''Fruits'' ''X''
     (initial_vars ex_config) ex_crawl_world))) = 0"
proof -
  let ?P = "page_loop ex_site None ex_config ''Fruits'' ''X'' (initial_vars ex_config) ex_crawl_world"
  note t = empty_page_streak [where ev = None and w = ex_crawl_world and cfg = ex_config and
      v = "initial_vars ex_config" and e = ex_site and cid = "''X''" and
      page = "ex_page [''p1'', ''p2'', ''p3'', ''p4'', ''p5'']" and
      items = "map ex_product [''p1'', ''p2'', ''p3'', ''p4'', ''p5'']" and cn = "''Fruits''"]
  have h1: "0 < empty_page_stop ex_config"
    "consecutive_empty (initial_vars ex_config) < empty_page_stop ex_config"
    by (simp_all add: ex_config_def initial_vars_def)
  have l: "(fst ?P = EmptyPages) = (consecutive_empty (fst (snd ?P)) = empty_page_stop ex_config)"
    using t [THEN conjunct2, THEN conjunct1] h1 by blast
  have e: "fst ?P = EmptyPages"
    using t [THEN conjunct2, THEN conjunct2, THEN conjunct1] .
  have c: "consecutive_empty (fst (snd ?P)) = 2"
    using l e by (simp add: ex_config_def)
  have h2: "\<not> should_stop None (length (events ex_crawl_world))"
    "\<not> should_stop None (length (events ex_crawl_world) + 1)"
    "\<not> should_stop None (length (events ex_crawl_world) + 3)"
    "case end_page ex_config of None \<Rightarrow> True | Some ep \<Rightarrow> page_num (initial_vars ex_config) \<le> ep"
    "visited_pages (initial_vars ex_config) < page_cap ex_config"
    "http_get ex_site ''X'' (page_num (initial_vars ex_config)) =
       Inr (ex_page [''p1'', ''p2'', ''p3'', ''p4'', ''p5''])"
    "scraped (ex_page [''p1'', ''p2'', ''p3'', ''p4'', ''p5'']) =
       Some (map ex_product [''p1'', ''p2'', ''p3'', ''p4'', ''p5''])"
    by (simp_all add: should_stop_def ex_config_def initial_vars_def ex_site_def ex_page_def)
  have "consecutive_empty (fst (snd (page_iteration ex_site None ex_config ''Fruits'' ''X''
          (initial_vars ex_config) ex_crawl_world))) =
        (if fst (dedupe (map ex_product [''p1'', ''p2'', ''p3'', ''p4'', ''p5''])
                   (seen_ids (initial_vars ex_config)) []) = []
         then consecutive_empty (initial_vars ex_config) + 1 else 0)"
    using t [THEN conjunct1] h2 by blast
  then have s: "consecutive_empty (fst (snd (page_iteration ex_site None ex_config ''Fruits'' ''X''
          (initial_vars ex_config) ex_crawl_world))) = 0"
    by (simp add: initial_vars_def pid_of_def ex_product_def)
  from h1 e c h2(1,5,6,7) s show ?thesis by blast
qed


section \<open>Deduplication in first-seen order\<close>


lemma first_seen_snoc:
  "first_seen (xs @ [x]) =
     (if pid_of x \<noteq> [] \<and> pid_of x \<in> pid_of ` set xs then first_seen xs else first_seen xs @ [x])"
proof -
  have f: "filter (\<lambda>i. pid_of ((xs @ [x]) ! i) = [] \<or>
                       pid_of ((xs @ [x]) ! i) \<notin> pid_of ` set (take i (xs @ [x]))) [0..<length xs] =
           filter (\<lambda>i. pid_of (xs ! i) = [] \<or> pid_of (xs ! i) \<notin> pid_of ` set (take i xs))
             [0..<length xs]"
    by (rule filter_cong) (simp_all add: nth_append)
  have m: "\<And>is. set is \<subseteq> {0..<length xs} \<Longrightarrow> map (\<lambda>i. (xs @ [x]) ! i) is = map (\<lambda>i. xs ! i) is"
    by (rule map_cong) (auto simp: nth_append)
  have m': "map (\<lambda>i. (xs @ [x]) ! i)
              (filter (\<lambda>i. pid_of (xs ! i) = [] \<or> pid_of (xs ! i) \<notin> pid_of ` set (take i xs))
                 [0..<length xs]) =
            first_seen xs"
    unfolding first_seen_def by (rule m) auto
  show ?thesis
    using f m' by (simp add: first_seen_def [of "xs @ [x]"])
qed

lemma first_seen_Nil: "first_seen [] = []"
  by (simp add: first_seen_def)

lemma ids_snoc: "ids (xs @ [x]) = (if pid_of x \<noteq> [] then insert (pid_of x) (ids xs) else ids xs)"
  by (auto simp: ids_def)

lemma dedupe_first_seen:
  "seen = ids before \<Longrightarrow> c @ acc = first_seen before \<Longrightarrow>
     c @ fst (dedupe items seen acc) = first_seen (before @ items) \<and>
     snd (dedupe items seen acc) = ids (before @ items)"
proof (induction items arbitrary: seen acc before)
  case Nil
  then show ?case by simp
next
  case (Cons it items)
  have mem: "(pid_of it \<noteq> [] \<and> pid_of it \<in> seen) = (pid_of it \<noteq> [] \<and> pid_of it \<in> pid_of ` set before)"
    using Cons.prems(1) by (auto simp: ids_def)
  show ?case
  proof (cases "pid_of it \<noteq> [] \<and> pid_of it \<in> seen")
    case True
    have 1: "seen = ids (before @ [it])" using True Cons.prems(1) by (auto simp: ids_snoc)
    have 2: "c @ acc = first_seen (before @ [it])"
      using True mem Cons.prems(2) by (simp add: first_seen_snoc)
    from Cons.IH [OF 1 2] True show ?thesis by auto
  next
    case False
    have 1: "(if pid_of it \<noteq> [] then insert (pid_of it) seen else seen) = ids (before @ [it])"
      using Cons.prems(1) by (simp add: ids_snoc)
    have 2: "c @ (acc @ [it]) = first_seen (before @ [it])"
      using False mem Cons.prems(2) by (auto simp: first_seen_snoc)
    from Cons.IH [OF 1 2] False show ?thesis by auto
  qed
qed

lemma first_seen_ids: "pid_of ` set (first_seen xs) = pid_of ` set xs"
  by (induction xs rule: rev_induct) (auto simp: first_seen_snoc first_seen_Nil)

lemma first_seen_distinct: "distinct (filter (\<lambda>i. i \<noteq> []) (map pid_of (first_seen xs)))"
proof (induction xs rule: rev_induct)
  case Nil
  show ?case by (simp add: first_seen_Nil)
next
  case (snoc x xs)
  then show ?case
    using first_seen_ids [of xs] by (auto simp: first_seen_snoc)
qed

lemma first_seen_keeps_empty_ids:
  "filter (\<lambda>r. pid_of r = []) (first_seen xs) = filter (\<lambda>r. pid_of r = []) xs"
  by (induction xs rule: rev_induct) (auto simp: first_seen_snoc first_seen_Nil)

lemma pages_items_Suc:
  "pages_items e cid p (Suc k) = page_items e cid p @ pages_items e cid (p + 1) k"
proof -
  have "[0..<Suc k] = 0 # map Suc [0..<k]"
    by (simp add: upt_conv_Cons map_Suc_upt del: upt_Suc)
  then show ?thesis
    by (simp add: pages_items_def comp_def algebra_simps del: upt_Suc)
qed


lemma page_iteration_inv:
  assumes "collected v = first_seen all" and "seen_ids v = ids all"
  shows "(fst (page_iteration e ev cfg cn cid v w) \<noteq> None \<and>
          collected (fst (snd (page_iteration e ev cfg cn cid v w))) = first_seen all \<and>
          seen_ids (fst (snd (page_iteration e ev cfg cn cid v w))) = ids all) \<or>
         (collected (fst (snd (page_iteration e ev cfg cn cid v w))) =
            first_seen (all @ page_items e cid (page_num v)) \<and>
          seen_ids (fst (snd (page_iteration e ev cfg cn cid v w))) =
            ids (all @ page_items e cid (page_num v)))"
proof -
  have d: "\<And>items. first_seen (all @ items) = collected v @ fst (dedupe items (seen_ids v) [])"
    "\<And>items. ids (all @ items) = snd (dedupe items (seen_ids v) [])"
    using dedupe_first_seen [of "seen_ids v" all "collected v" "[]"] assms by simp_all
  have a: "first_seen all = collected v" "ids all = seen_ids v"
    using assms by simp_all
  show ?thesis
    by (simp add: page_iteration_def page_items_def Let_def case_prod_beta d a
          split: sum.splits option.splits)
qed

lemma page_loop_inv:
  assumes "collected v = first_seen all" and "seen_ids v = ids all"
  shows "\<exists>k. collected (fst (snd (page_loop e ev cfg cn cid v w))) =
               first_seen (all @ pages_items e cid (page_num v) k) \<and>
             seen_ids (fst (snd (page_loop e ev cfg cn cid v w))) =
               ids (all @ pages_items e cid (page_num v) k)"
  using assms
proof (induction e ev cfg cn cid v w arbitrary: all rule: page_loop.induct)
  case (1 e ev cfg cn cid v w)
  let ?it = "page_iteration e ev cfg cn cid v w"
  note step = page_iteration_inv [OF "1.prems", of e ev cfg cn cid w]
  show ?case
  proof (cases "fst ?it")
    case None
    have eq: "page_loop e ev cfg cn cid v w = page_loop e ev cfg cn cid (fst (snd ?it)) (snd (snd ?it))"
      using None by (simp add: page_loop.simps [of e ev cfg cn cid v w])
    from step None have a: "collected (fst (snd ?it)) = first_seen (all @ page_items e cid (page_num v))"
      "seen_ids (fst (snd ?it)) = ids (all @ page_items e cid (page_num v))"
      by simp_all
    from page_iteration_continues [OF None] have pn: "page_num (fst (snd ?it)) = page_num v + 1"
      by simp
    from "1.IH" [OF None a] obtain k where
      "collected (fst (snd (page_loop e ev cfg cn cid (fst (snd ?it)) (snd (snd ?it))))) =
         first_seen ((all @ page_items e cid (page_num v)) @
                     pages_items e cid (page_num (fst (snd ?it))) k)"
      "seen_ids (fst (snd (page_loop e ev cfg cn cid (fst (snd ?it)) (snd (snd ?it))))) =
         ids ((all @ page_items e cid (page_num v)) @
              pages_items e cid (page_num (fst (snd ?it))) k)"
      by blast
    then have "collected (fst (snd (page_loop e ev cfg cn cid v w))) =
                 first_seen (all @ pages_items e cid (page_num v) (Suc k)) \<and>
               seen_ids (fst (snd (page_loop e ev cfg cn cid v w))) =
                 ids (all @ pages_items e cid (page_num v) (Suc k))"
      using eq pn by (simp add: pages_items_Suc)
    then show ?thesis by blast
  next
    case (Some x)
    then have eq: "page_loop e ev cfg cn cid v w = (x, snd ?it)"
      by (simp add: page_loop.simps [of e ev cfg cn cid v w])
    from step have
      "(collected (fst (snd ?it)) = first_seen (all @ pages_items e cid (page_num v) 0) \<and>
        seen_ids (fst (snd ?it)) = ids (all @ pages_items e cid (page_num v) 0)) \<or>
       (collected (fst (snd ?it)) = first_seen (all @ pages_items e cid (page_num v) (Suc 0)) \<and>
        seen_ids (fst (snd ?it)) = ids (all @ pages_items e cid (page_num v) (Suc 0)))"
      by (auto simp: pages_items_def)
    with eq show ?thesis by auto
  qed
qed

text \<open>
  Claim C4. Whatever the pages hold and however the page loop ends, the buffer of a
  category is the first-seen selection of the records of the pages processed so far (some
  number of consecutive pages from the start page on), in page order: a record whose
  non-empty id was seen before is dropped, every other record is appended. So the
  records without id are all kept, in their order, and no non-empty id occurs twice in
  the buffer.
\<close>

theorem dedup_first_seen:
  "\<exists>k. collected (fst (snd (page_loop e ev cfg cn cid (initial_vars cfg) w))) =
          first_seen (pages_items e cid (start_page cfg) k) \<and>
        filter (\<lambda>r. pid_of r = []) (collected (fst (snd (page_loop e ev cfg cn cid (initial_vars cfg) w)))) =
          filter (\<lambda>r. pid_of r = []) (pages_items e cid (start_page cfg) k) \<and>
        distinct (filter (\<lambda>i. i \<noteq> [])
          (map pid_of (collected (fst (snd (page_loop e ev cfg cn cid (initial_vars cfg) w))))))"
proof -
  have "collected (initial_vars cfg) = first_seen []" "seen_ids (initial_vars cfg) = ids []"
    by (simp_all add: initial_vars_def first_seen_Nil ids_def)
  from page_loop_inv [OF this, of e ev cfg cn cid w] obtain k where
    "collected (fst (snd (page_loop e ev cfg cn cid (initial_vars cfg) w))) =
       first_seen (pages_items e cid (start_page cfg) k)"
    by (auto simp: initial_vars_def)
  then show ?thesis
    using first_seen_keeps_empty_ids [of "pages_items e cid (start_page cfg) k"]
      first_seen_distinct [of "pages_items e cid (start_page cfg) k"]
    by auto
qed

theorem dedup_first_seen_witness:
  "map pid_of (collected (fst (snd (page_loop ex_dup_site None (ex_config\<lparr>empty_page_stop := 1\<rparr>)
         ''Fruits'' ''X'' (initial_vars (ex_config\<lparr>empty_page_stop := 1\<rparr>)) ex_crawl_world)))) =
     [''a'', ''b'', [], ''c'', []] \<and>
   map pid_of (pages_items ex_dup_site ''X'' 1 2) = [''a'', ''b'', [], ''b'', ''c'', []]"
  using dedup_first_seen [of ex_dup_site None "ex_config\<lparr>empty_page_stop := 1\<rparr>" "''Fruits''" "''X''"
      ex_crawl_world]
  by (simp add: crawl_defs crawl_ex_defs ex_dup_site_def page_loop.simps sleep_loop.simps Let_def
        pages_items_def page_items_def numeral_2_eq_2)


end
